theory Spec2Isabelle
  imports
    Main
    "HOL-Library.Word"
    "HOL-Library.Mapping"
    "HOL-Library.AList_Mapping"
    "HOL-Library.List_Lexorder"
    "HOL-Library.Char_ord"
    "HOL-Library.Code_Target_Nat"
begin

section \<open>Go values used by package geocode\<close>

text \<open>
  A Go \<open>string\<close> is a sequence of bytes: \<open>string\<close> (a \<open>char list\<close>, a \<open>char\<close> being a
  byte). Strings are compared byte by byte, which is the lexicographic order of
  \<open>List_Lexorder\<close> over the byte order of \<open>Char_ord\<close>.

  A \<open>float64\<close> is its IEEE 754 bit pattern: bit 63 the sign, bits 62..52 the biased
  exponent, bits 51..0 the fraction.
\<close>

type_synonym float64 = "64 word"

definition f64_neg :: "float64 \<Rightarrow> bool" where
  "f64_neg x = (2 ^ 63 \<le> unat x)"

definition f64_exp :: "float64 \<Rightarrow> nat" where
  "f64_exp x = unat x div 2 ^ 52 mod 2 ^ 11"

definition f64_mant :: "float64 \<Rightarrow> nat" where
  "f64_mant x = unat x mod 2 ^ 52"

text \<open>
  The Go comparison \<open>x != 0\<close> on a \<open>float64\<close>: false for \<open>+0\<close> and for \<open>-0\<close> (they
  compare equal), true for everything else, NaN included.
\<close>

definition f64_ne_zero :: "float64 \<Rightarrow> bool" where
  "f64_ne_zero x = (x \<noteq> 0 \<and> x \<noteq> 0x8000000000000000)"

subsection \<open>Formatting: \<open>%d\<close> and \<open>%f\<close>\<close>

fun digits10 :: "nat \<Rightarrow> string" where
  "digits10 n =
     (if n < 10 then [''0123456789'' ! n]
      else digits10 (n div 10) @ [''0123456789'' ! (n mod 10)])"

declare digits10.simps [simp del]

text \<open>\<open>%d\<close> of an \<open>int\<close>: the decimal digits, with a minus sign when negative.\<close>

definition Sprintf_d :: "int \<Rightarrow> string" where
  "Sprintf_d i = (if i < 0 then ''-'' @ digits10 (nat (- i)) else digits10 (nat i))"

text \<open>
  \<open>%f\<close> of a \<open>float64\<close> (precision 6, the default): the exact value
  \<open>m * 2 ^ (e - 1075)\<close> of a finite number, rounded to six decimals, ties to even; the
  integer part, a point and six digits; the sign is kept, also on a zero.
  \<open>scaled6 m e\<close> is that value times \<open>10 ^ 6\<close>, rounded; \<open>frac6\<close> writes its last
  six digits.
\<close>

definition scaled6 :: "nat \<Rightarrow> nat \<Rightarrow> nat" where
  "scaled6 m e =
     (if 1075 \<le> e then m * 10 ^ 6 * 2 ^ (e - 1075)
      else
        (let d = 2 ^ (1075 - e);
             q = (m * 10 ^ 6) div d;
             r = (m * 10 ^ 6) mod d
         in if d < 2 * r \<or> (2 * r = d \<and> odd q) then q + 1 else q))"

definition frac6 :: "nat \<Rightarrow> string" where
  "frac6 k = map (\<lambda>i. ''0123456789'' ! (k div 10 ^ i mod 10)) [5, 4, 3, 2, 1, 0]"

definition Sprintf_f :: "float64 \<Rightarrow> string" where
  "Sprintf_f x =
     (if f64_exp x = 2047 then
        (if f64_mant x \<noteq> 0 then ''NaN'' else if f64_neg x then ''-Inf'' else ''+Inf'')
      else
        (let m = (if f64_exp x = 0 then f64_mant x else f64_mant x + 2 ^ 52);
             e = (if f64_exp x = 0 then 1 else f64_exp x);
             n = scaled6 m e
         in (if f64_neg x then ''-'' else '''') @
            digits10 (n div 10 ^ 6) @ ''.'' @ frac6 (n mod 10 ^ 6)))"

subsection \<open>\<open>strings.Join\<close>\<close>

fun Join :: "string list \<Rightarrow> string \<Rightarrow> string" where
  "Join [] sep = []"
| "Join [x] sep = x"
| "Join (x # y # ys) sep = x @ sep @ Join (y # ys) sep"

subsection \<open>\<open>net/url\<close>: \<open>QueryEscape\<close>, \<open>Values.Add\<close> and \<open>Values.Encode\<close>\<close>

text \<open>
  \<open>shouldEscape\<close> in the mode of a query component: letters, digits and the four marks
  \<open>- _ . ~\<close> are kept, every other byte is escaped.
\<close>

definition shouldEscape :: "char \<Rightarrow> bool" where
  "shouldEscape c =
     (if (CHR ''a'' \<le> c \<and> c \<le> CHR ''z'') \<or> (CHR ''A'' \<le> c \<and> c \<le> CHR ''Z'')
          \<or> (CHR ''0'' \<le> c \<and> c \<le> CHR ''9'')
      then False
      else if c = CHR ''-'' \<or> c = CHR ''_'' \<or> c = CHR ''.'' \<or> c = CHR ''~'' then False
      else True)"

definition upperhex :: string where
  "upperhex = ''0123456789ABCDEF''"

definition escape_byte :: "char \<Rightarrow> string" where
  "escape_byte c =
     (if c = CHR '' '' then ''+''
      else if shouldEscape c then
        [CHR ''%'', upperhex ! (of_char c div 16), upperhex ! (of_char c mod 16)]
      else [c])"

definition QueryEscape :: "string \<Rightarrow> string" where
  "QueryEscape s = concat (map escape_byte s)"

text \<open>
  \<open>url.Values\<close> is \<open>map[string][]string\<close>. \<open>Add\<close> appends the value to the list under
  the key (the list of a missing key is empty).
\<close>

type_synonym Values = "(string, string list) mapping"

definition Values_Add :: "string \<Rightarrow> string \<Rightarrow> Values \<Rightarrow> Values" where
  "Values_Add k v m = Mapping.update k (Mapping.lookup_default [] m k @ [v]) m"

text \<open>
  \<open>Encode\<close> sorts the keys and writes, for each key and each of its values in turn,
  an \<open>&\<close> when the buffer is not empty, then the escaped key, \<open>=\<close> and the escaped
  value.
\<close>

definition Encode_write :: "string \<Rightarrow> string \<Rightarrow> string \<Rightarrow> string" where
  "Encode_write keyEscaped v buf =
     (if buf \<noteq> [] then buf @ ''&'' else buf) @ keyEscaped @ ''='' @ QueryEscape v"

definition Encode :: "Values \<Rightarrow> string" where
  "Encode v =
     (if Mapping.is_empty v then []
      else fold (\<lambda>k buf. fold (Encode_write (QueryEscape k)) (Mapping.lookup_default [] v k) buf)
             (Mapping.ordered_keys v) [])"

section \<open>service.go\<close>

text \<open>
  An error value is identified by how it was made. \<open>external\<close> stands for the errors
  of the libraries (\<open>net/http\<close>, \<open>io/ioutil\<close>, \<open>encoding/json\<close>), passed on as they are.
\<close>

datatype error =
    errors_New string
  | fmt_Errorf string
  | apiError string string
    \<comment> \<open>Modelled from the spec: the declaration of type \<open>apiError\<close> is not among the
        sources; it carries the status string and the optional message.\<close>
  | external string

text \<open>
  What \<open>client.Get\<close> returns: an error, or a response with its status code and a
  body whose reading (\<open>ioutil.ReadAll\<close>) gives the bytes or an error.
\<close>

record http_Response =
  StatusCode :: int
  Body :: "error + string"

definition baseURL :: string where
  "baseURL = ''https://maps.googleapis.com/maps/api/geocode''"

record Service =
  client :: "string \<Rightarrow> error + http_Response"
  key :: string
  url :: string

text \<open>
  Services are shared through pointers: a store maps the address of a \<open>Service\<close> to
  its current value. \<open>NewService\<close> builds the value that is placed at a fresh address;
  \<open>SetURL\<close> updates the service at its address. A pointer to a service is an address
  of the store, and the \<open>client\<close> of a service is the answer of its transport to a
  \<open>Get\<close>; nil pointers are not modelled.
\<close>

type_synonym store = "nat \<Rightarrow> Service"

definition NewService :: "(string \<Rightarrow> error + http_Response) \<Rightarrow> string \<Rightarrow> Service" where
  "NewService c k = \<lparr>client = c, key = k, url = baseURL\<rparr>"

definition SetURL :: "nat \<Rightarrow> string \<Rightarrow> store \<Rightarrow> store" where
  "SetURL s u h = h(s := (h s)\<lparr>url := u\<rparr>)"

section \<open>geocode.go\<close>

definition errLatLngOrPlaceIdRequire :: error where
  "errLatLngOrPlaceIdRequire = errors_New ''Lat,Lng or PlaceId is required''"

record LatLng =
  Lat :: float64
  Lng :: float64

record LatLngArea =
  SoutWest :: LatLng
  NorthEase :: LatLng

record Geometry =
  Location :: LatLng
  LocationType :: string
  Viewport :: LatLngArea
  Bounds :: LatLngArea

record AddressComponent =
  Types :: "string list"
  LongName :: string
  ShortName :: string

record GeocodeDetail =
  Types :: "string list"
  FormattedAddress :: string
  AddressComponents :: "AddressComponent list"
  FormattedPhoneNumber :: string
  Geometry :: Geometry
  PartialMatch :: string
  PlaceID :: string

record GeocodeResponse =
  Results :: "GeocodeDetail list"
  Status :: string
  ErrorMessage :: string
  HTMLAttributions :: "string list"

record ReverseGeocodeCall =
  service :: nat
  lat :: float64
  lng :: float64
  PlaceId :: string
  Language :: string
  ResultType :: "string list"
  LocationType :: "string list"

definition ReverseGeocode :: "nat \<Rightarrow> float64 \<Rightarrow> float64 \<Rightarrow> ReverseGeocodeCall" where
  "ReverseGeocode p la lo =
     \<lparr>service = p, lat = la, lng = lo, PlaceId = [], Language = [],
      ResultType = [], LocationType = []\<rparr>"

definition validate :: "ReverseGeocodeCall \<Rightarrow> error option" where
  "validate n =
     (if f64_ne_zero (lat n) \<or> f64_ne_zero (lng n) then None
      else if PlaceId n \<noteq> [] then None
      else Some errLatLngOrPlaceIdRequire)"

text \<open>
  \<open>query\<close>: \<open>query_values\<close> is the value of the local \<open>url.Values\<close> when the function
  returns its encoding. The two loops copy the filter lists element by element.
\<close>

definition copy_strings :: "string list \<Rightarrow> string list" where
  "copy_strings ts = foldl (\<lambda>acc t. acc @ [t]) [] ts"

definition query_values :: "store \<Rightarrow> ReverseGeocodeCall \<Rightarrow> Values" where
  "query_values h r =
     (let q0 = Values_Add ''key'' (key (h (service r))) Mapping.empty;
          q1 = (if f64_ne_zero (lat r) \<or> f64_ne_zero (lng r)
                then Values_Add ''latlng'' (Sprintf_f (lat r) @ '','' @ Sprintf_f (lng r)) q0
                else q0);
          q2 = (if PlaceId r \<noteq> [] then Values_Add ''place_id'' (Language r) q1 else q1);
          q3 = (if Language r \<noteq> [] then Values_Add ''language'' (Language r) q2 else q2);
          resultTypes = copy_strings (ResultType r);
          q4 = (if 0 < length resultTypes
                then Values_Add ''result_type'' (Join resultTypes ''|'') q3 else q3);
          locationTypes = copy_strings (ReverseGeocodeCall.LocationType r);
          q5 = (if 0 < length locationTypes
                then Values_Add ''location_type'' (Join locationTypes ''|'') q4 else q4)
      in q5)"

definition query :: "store \<Rightarrow> ReverseGeocodeCall \<Rightarrow> string" where
  "query h r = Encode (query_values h r)"

text \<open>
  \<open>Do\<close> acts on the outside world; the world is the list of the effects so far. The
  deferred \<open>Body.Close\<close> runs when \<open>Do\<close> returns, after the body has been read.
  \<open>json.Unmarshal\<close> into a \<open>GeocodeResponse\<close> is a parameter: the decoded value, or
  the decoder's error.
\<close>

datatype event = HTTPGet string | BodyReadAll | BodyClose

definition Do ::
  "(string \<Rightarrow> error + GeocodeResponse) \<Rightarrow> store \<Rightarrow> ReverseGeocodeCall \<Rightarrow> event list
     \<Rightarrow> (error + GeocodeResponse) \<times> event list" where
  "Do json_Unmarshal h n w =
     (case validate n of
        Some err \<Rightarrow> (Inl err, w)
      | None \<Rightarrow>
          (let searchURL = baseURL @ ''/json?'' @ query h n in
           case client (h (service n)) searchURL of
             Inl err \<Rightarrow> (Inl err, w @ [HTTPGet searchURL])
           | Inr resp \<Rightarrow>
               (let w' = w @ [HTTPGet searchURL, BodyReadAll, BodyClose] in
                case Body resp of
                  Inl err \<Rightarrow> (Inl err, w')
                | Inr body \<Rightarrow>
                    if StatusCode resp \<noteq> 200 then
                      (Inl (fmt_Errorf (''bad resp '' @ Sprintf_d (StatusCode resp) @ '': '' @ body)), w')
                    else
                      (case json_Unmarshal body of
                         Inl err \<Rightarrow> (Inl err, w')
                       | Inr data \<Rightarrow>
                           if Status data \<noteq> ''OK'' then
                             (Inl (apiError (Status data) (ErrorMessage data)), w')
                           else (Inr data, w')))))"

section \<open>Reading a query string\<close>

text \<open>
  What a receiver sees of an encoded query: the pieces between the \<open>&\<close>
  (\<open>strings.Split\<close>), and \<open>param_values k s\<close>, the escaped values that \<open>s\<close> carries
  under the key \<open>k\<close>, in the order of the string.
\<close>

fun split_on :: "char \<Rightarrow> string \<Rightarrow> string list" where
  "split_on c [] = [[]]"
| "split_on c (x # xs) =
     (if x = c then [] # split_on c xs
      else (case split_on c xs of [] \<Rightarrow> [[x]] | y # ys \<Rightarrow> (x # y) # ys))"

fun strip_prefix :: "string \<Rightarrow> string \<Rightarrow> string option" where
  "strip_prefix [] s = Some s"
| "strip_prefix (p # ps) [] = None"
| "strip_prefix (p # ps) (x # xs) = (if p = x then strip_prefix ps xs else None)"

definition param_values :: "string \<Rightarrow> string \<Rightarrow> string list" where
  "param_values k s =
     concat (map (\<lambda>seg. case strip_prefix (k @ ''='') seg of None \<Rightarrow> [] | Some v \<Rightarrow> [v])
       (split_on (CHR ''&'') s))"

text \<open>The bytes an escaped string is made of: the kept ones, \<open>%\<close> and \<open>+\<close>.\<close>

definition query_byte :: "char \<Rightarrow> bool" where
  "query_byte c = (\<not> shouldEscape c \<or> c = CHR ''%'' \<or> c = CHR ''+'')"

text \<open>The digits of a formatted number, and the number a string of digits denotes.\<close>

definition decimal_digit :: "char \<Rightarrow> bool" where
  "decimal_digit c = (CHR ''0'' \<le> c \<and> c \<le> CHR ''9'')"

definition decimal_value :: "string \<Rightarrow> nat" where
  "decimal_value s = foldl (\<lambda>a c. 10 * a + (of_char c - 48)) 0 s"

section \<open>The default float formatting, as the specification words it\<close>

text \<open>
  The specification calls the formatting of a coordinate the six-decimal default float
  formatting. \<open>default_float_format x s\<close> says that the string \<open>s\<close> is that formatting of
  the float \<open>x\<close>, read off the bits of \<open>x\<close> and the bytes of \<open>s\<close> alone: for a finite
  \<open>x\<close> of value \<open>m * 2 ^ (e - 1075)\<close>, \<open>s\<close> is a minus sign exactly when the sign bit is
  set, then an integer part of digits without a leading zero (a single \<open>0\<close> apart), a
  point and six digits, and the digits denote the whole number nearest to the value
  times \<open>10 ^ 6\<close>, the even one of two equally near; a NaN is \<open>NaN\<close> and an infinity
  \<open>+Inf\<close> or \<open>-Inf\<close>.
\<close>

definition nearest_micro :: "nat \<Rightarrow> nat \<Rightarrow> nat \<Rightarrow> bool" where
  "nearest_micro m e n =
     (if 1075 \<le> e then n = m * 10 ^ 6 * 2 ^ (e - 1075)
      else 2 * (n * 2 ^ (1075 - e)) \<le> 2 * (m * 10 ^ 6) + 2 ^ (1075 - e)
         \<and> 2 * (m * 10 ^ 6) \<le> 2 * (n * 2 ^ (1075 - e)) + 2 ^ (1075 - e)
         \<and> ((2 * (n * 2 ^ (1075 - e)) = 2 * (m * 10 ^ 6) + 2 ^ (1075 - e)
              \<or> 2 * (n * 2 ^ (1075 - e)) + 2 ^ (1075 - e) = 2 * (m * 10 ^ 6)) \<longrightarrow> even n))"

definition six_decimals :: "bool \<Rightarrow> nat \<Rightarrow> nat \<Rightarrow> string \<Rightarrow> bool" where
  "six_decimals neg m e s =
     (let body = (if neg then drop 1 s else s);
          ip = take (length body - 7) body;
          ds = drop (length body - 6) body
      in (neg \<longrightarrow> take 1 s = ''-'')
         \<and> 8 \<le> length body
         \<and> body ! (length body - 7) = CHR ''.''
         \<and> list_all decimal_digit ip \<and> (ip = ''0'' \<or> hd ip \<noteq> CHR ''0'')
         \<and> list_all decimal_digit ds
         \<and> nearest_micro m e (decimal_value (ip @ ds)))"

definition default_float_format :: "float64 \<Rightarrow> string \<Rightarrow> bool" where
  "default_float_format x s =
     (let u = unat x;
          neg = (2 ^ 63 \<le> u);
          ex = u div 2 ^ 52 mod 2 ^ 11;
          fr = u mod 2 ^ 52
      in if ex = 2047 then s = (if fr \<noteq> 0 then ''NaN'' else if neg then ''-Inf'' else ''+Inf'')
         else six_decimals neg (if ex = 0 then fr else fr + 2 ^ 52) (if ex = 0 then 1 else ex) s)"

section \<open>Auxiliary notions for the proofs\<close>

text \<open>
  The pieces \<open>Encode\<close> writes, before they are joined; the parameters of a call in the
  order of their keys; the six parameters \<open>query\<close> can add, each with its condition.
\<close>

definition Encode_segments :: "Values \<Rightarrow> string list" where
  "Encode_segments v =
     concat (map (\<lambda>k. map (\<lambda>x. QueryEscape k @ ''='' @ QueryEscape x) (Mapping.lookup_default [] v k))
       (Mapping.ordered_keys v))"

definition sorted_params :: "store \<Rightarrow> ReverseGeocodeCall \<Rightarrow> (string \<times> string) list" where
  "sorted_params h r =
     [(''key'', key (h (service r)))] @
     (if Language r \<noteq> [] then [(''language'', Language r)] else []) @
     (if f64_ne_zero (lat r) \<or> f64_ne_zero (lng r)
      then [(''latlng'', Sprintf_f (lat r) @ '','' @ Sprintf_f (lng r))] else []) @
     (if ReverseGeocodeCall.LocationType r \<noteq> []
      then [(''location_type'', Join (ReverseGeocodeCall.LocationType r) ''|'')] else []) @
     (if PlaceId r \<noteq> [] then [(''place_id'', Language r)] else []) @
     (if ResultType r \<noteq> [] then [(''result_type'', Join (ResultType r) ''|'')] else [])"

definition candidate_params :: "store \<Rightarrow> ReverseGeocodeCall \<Rightarrow> (bool \<times> string \<times> string) list" where
  "candidate_params h r =
     [(True, ''key'', key (h (service r))),
      (Language r \<noteq> [], ''language'', Language r),
      (f64_ne_zero (lat r) \<or> f64_ne_zero (lng r), ''latlng'',
         Sprintf_f (lat r) @ '','' @ Sprintf_f (lng r)),
      (ReverseGeocodeCall.LocationType r \<noteq> [], ''location_type'',
         Join (ReverseGeocodeCall.LocationType r) ''|''),
      (PlaceId r \<noteq> [], ''place_id'', Language r),
      (ResultType r \<noteq> [], ''result_type'', Join (ResultType r) ''|'')]"

definition write_param :: "string \<times> string \<Rightarrow> string" where
  "write_param p = fst p @ ''='' @ QueryEscape (snd p)"

section \<open>A mock transport and a mock decoder\<close>

text \<open>
  For running \<open>Do\<close>: a transport that answers every request with the given status
  code and body; one whose response has a body that fails to be read, with the given
  error; the JSON text of an object whose only field is \<open>status\<close>; and a
  decoder that knows the two such bodies with the status \<open>OK\<close> and \<open>ZERO_RESULTS\<close>
  (the absent fields get their zero values) and rejects every other body.
\<close>

definition mock_client :: "int \<Rightarrow> string \<Rightarrow> string \<Rightarrow> error + http_Response" where
  "mock_client code body u = Inr \<lparr>StatusCode = code, Body = Inr body\<rparr>"


definition json_status_body :: "string \<Rightarrow> string" where
  "json_status_body st =
     ''{'' @ [CHR 0x22] @ ''status'' @ [CHR 0x22] @ '':'' @ [CHR 0x22] @ st @ [CHR 0x22] @ ''}''"

definition mock_Unmarshal :: "string \<Rightarrow> error + GeocodeResponse" where
  "mock_Unmarshal body =
     (if body = json_status_body ''OK'' then
        Inr \<lparr>Results = [], Status = ''OK'', ErrorMessage = [], HTMLAttributions = []\<rparr>
      else if body = json_status_body ''ZERO_RESULTS'' then
        Inr \<lparr>Results = [], Status = ''ZERO_RESULTS'', ErrorMessage = [], HTMLAttributions = []\<rparr>
      else Inl (external ''invalid character''))"

section \<open>Lemmas on the library functions and on \<open>query\<close>\<close>

lemma copy_strings_acc: "foldl (\<lambda>acc t. acc @ [t]) a ts = a @ ts"
  by (induction ts arbitrary: a) simp_all

lemma copy_strings_id: "copy_strings ts = ts"
  by (simp add: copy_strings_def copy_strings_acc)

lemma Join_Cons: "Join (x # xs) sep = x @ concat (map ((@) sep) xs)"
  by (induction xs arbitrary: x) simp_all

lemma append_single_fun: "(@) [c] = (#) c"
  by (rule ext) simp

lemma Encode_write_nonempty: "Encode_write ke x buf \<noteq> []"
  by (simp add: Encode_write_def)

lemma fold_write:
  "fold (Encode_write ke) vs buf =
     (if buf = [] then Join (map (\<lambda>x. ke @ ''='' @ QueryEscape x) vs) ''&''
      else buf @ concat (map ((#) CHR ''&'') (map (\<lambda>x. ke @ ''='' @ QueryEscape x) vs)))"
proof (induction vs arbitrary: buf)
  case Nil
  show ?case by simp
next
  case (Cons x vs)
  have ne: "Encode_write ke x buf \<noteq> []" by (rule Encode_write_nonempty)
  show ?case
    by (simp add: Cons.IH ne Join_Cons append_single_fun) (simp add: Encode_write_def)
qed

lemma fold_write_ne: "vs \<noteq> [] \<Longrightarrow> fold (Encode_write ke) vs buf \<noteq> []"
proof (cases vs)
  case Nil
  assume "vs \<noteq> []"
  with Nil show ?thesis by simp
next
  case (Cons x xs)
  have "Encode_write ke x buf \<noteq> []" by (rule Encode_write_nonempty)
  then show ?thesis by (simp add: Cons fold_write)
qed

lemma fold_keys:
  "fold (\<lambda>k buf. fold (Encode_write (QueryEscape k)) (f k) buf) ks buf =
     (if buf = [] then Join (concat (map (\<lambda>k. map (\<lambda>x. QueryEscape k @ ''='' @ QueryEscape x) (f k)) ks)) ''&''
      else buf @ concat (map ((#) CHR ''&'') (concat (map (\<lambda>k. map (\<lambda>x. QueryEscape k @ ''='' @ QueryEscape x) (f k)) ks))))"
proof (induction ks arbitrary: buf)
  case Nil
  show ?case by simp
next
  case (Cons k ks)
  let ?B = "fold (Encode_write (QueryEscape k)) (f k) buf"
  let ?rest = "concat (map (\<lambda>k. map (\<lambda>x. QueryEscape k @ ''='' @ QueryEscape x) (f k)) ks)"
  show ?case
  proof (cases "f k")
    case Nil
    then show ?thesis by (simp add: Cons.IH)
  next
    case fk: (Cons x xs)
    have B: "?B \<noteq> []" by (rule fold_write_ne) (simp add: fk)
    have "fold (\<lambda>k buf. fold (Encode_write (QueryEscape k)) (f k) buf) (k # ks) buf =
          fold (\<lambda>k buf. fold (Encode_write (QueryEscape k)) (f k) buf) ks ?B"
      by simp
    also have "\<dots> = ?B @ concat (map ((#) CHR ''&'') ?rest)"
      using B by (simp only: Cons.IH if_False)
    finally have step: "fold (\<lambda>k buf. fold (Encode_write (QueryEscape k)) (f k) buf) (k # ks) buf =
          ?B @ concat (map ((#) CHR ''&'') ?rest)" .
    have B_eq: "?B = (if buf = [] then Join (map (\<lambda>x. QueryEscape k @ ''='' @ QueryEscape x) (f k)) ''&''
      else buf @ concat (map ((#) CHR ''&'') (map (\<lambda>x. QueryEscape k @ ''='' @ QueryEscape x) (f k))))"
      by (rule fold_write)
    show ?thesis
      by (subst step, subst B_eq) (simp add: fk Join_Cons append_single_fun)
  qed
qed

lemma Encode_eq_Join: "Encode v = Join (Encode_segments v) ''&''"
proof (cases "Mapping.is_empty v")
  case True
  then have "Mapping.ordered_keys v = []"
    by (simp add: Mapping.is_empty_def Mapping.ordered_keys_def)
  with True show ?thesis by (simp add: Encode_def Encode_segments_def)
next
  case False
  then show ?thesis by (simp add: Encode_def Encode_segments_def fold_keys)
qed

lemma split_on_no_sep: "c \<notin> set s \<Longrightarrow> split_on c s = [s]"
  by (induction s) auto

lemma split_on_append: "c \<notin> set a \<Longrightarrow> split_on c (a @ c # b) = a # split_on c b"
  by (induction a) auto

lemma split_on_Join:
  "xs \<noteq> [] \<Longrightarrow> \<forall>x\<in>set xs. c \<notin> set x \<Longrightarrow> split_on c (Join xs [c]) = xs"
proof (induction xs "[c]" rule: Join.induct)
  case 1
  then show ?case by simp
next
  case (2 x)
  then show ?case by (simp add: split_on_no_sep)
next
  case (3 x y ys)
  then show ?case by (simp add: split_on_append)
qed

lemma of_char_div16: "of_char c div 16 < (16::nat)"
proof -
  have "of_char c < (256::nat)" by (cases c) simp
  then show ?thesis by arith
qed

lemma upperhex_unreserved: "n < 16 \<Longrightarrow> \<not> shouldEscape (upperhex ! n)"
  by (auto simp: upperhex_def shouldEscape_def eval_nat_numeral less_Suc_eq)

lemma escape_byte_bytes: "x \<in> set (escape_byte c) \<Longrightarrow> query_byte x"
  by (auto simp: escape_byte_def query_byte_def upperhex_unreserved of_char_div16 split: if_splits)

lemma QueryEscape_bytes: "x \<in> set (QueryEscape s) \<Longrightarrow> query_byte x"
  by (auto simp: QueryEscape_def dest: escape_byte_bytes)

lemma amp_not_query_byte: "\<not> query_byte (CHR ''&'')"
  by (simp add: query_byte_def shouldEscape_def)

lemma eq_not_query_byte: "\<not> query_byte (CHR ''='')"
  by (simp add: query_byte_def shouldEscape_def)

lemma QueryEscape_no_amp: "CHR ''&'' \<notin> set (QueryEscape s)"
  using QueryEscape_bytes amp_not_query_byte by blast

lemma QueryEscape_no_eq: "CHR ''='' \<notin> set (QueryEscape s)"
  using QueryEscape_bytes eq_not_query_byte by blast

lemma QueryEscape_append: "QueryEscape (a @ b) = QueryEscape a @ QueryEscape b"
  by (simp add: QueryEscape_def)

lemma QueryEscape_Cons: "QueryEscape (c # s) = escape_byte c @ QueryEscape s"
  by (simp add: QueryEscape_def)

lemma escape_byte_pipe: "escape_byte (CHR ''|'') = ''%7C''"
  by (simp add: escape_byte_def shouldEscape_def upperhex_def)

lemma QueryEscape_Join_pipe:
  "QueryEscape (Join xs ''|'') = Join (map QueryEscape xs) ''%7C''"
  by (induction xs "''|''" rule: Join.induct)
     (simp_all add: QueryEscape_append QueryEscape_Cons escape_byte_pipe QueryEscape_def)

lemma lookup_Values_Add:
  "Mapping.lookup (Values_Add k v m) k' =
     (if k' = k then Some (Mapping.lookup_default [] m k @ [v]) else Mapping.lookup m k')"
  by (simp add: Values_Add_def Mapping.lookup_update')

lemma lookup_default_empty: "Mapping.lookup_default d Mapping.empty k = d"
  by (simp add: Mapping.lookup_default_def)

lemma lookup_default_Values_Add:
  "Mapping.lookup_default [] (Values_Add k v m) k' =
     (if k' = k then Mapping.lookup_default [] m k @ [v] else Mapping.lookup_default [] m k')"
  by (simp add: Mapping.lookup_default_def lookup_Values_Add)

lemma lookup_query_values:
  "Mapping.lookup (query_values h r) k = map_option (\<lambda>v. [v]) (map_of (sorted_params h r) k)"
  by (simp add: query_values_def sorted_params_def Let_def copy_strings_id
      lookup_Values_Add lookup_default_Values_Add lookup_default_empty)

lemma keys_query_values:
  "Mapping.keys (query_values h r) = set (map fst (sorted_params h r))"
proof -
  have "dom (Mapping.lookup (query_values h r)) = dom (map_of (sorted_params h r))"
    by (auto simp: lookup_query_values)
  then show ?thesis
    by (simp only: Mapping.keys_dom_lookup dom_map_of_conv_image_fst set_map)
qed

lemma sorted_params_filter:
  "sorted_params h r = map snd (filter fst (candidate_params h r))"
  by (simp add: sorted_params_def candidate_params_def)

lemma candidate_keys:
  "map (fst \<circ> snd) (candidate_params h r) =
     [''key'', ''language'', ''latlng'', ''location_type'', ''place_id'', ''result_type'']"
  by (simp add: candidate_params_def)

lemma sorted_sorted_params: "sorted (map fst (sorted_params h r))"
proof -
  have "sorted (map (fst \<circ> snd) (candidate_params h r))"
    unfolding candidate_keys by simp
  then have "sorted (map (fst \<circ> snd) (filter fst (candidate_params h r)))"
    by (rule sorted_filter)
  then show ?thesis by (simp add: sorted_params_filter)
qed

lemma distinct_sorted_params: "distinct (map fst (sorted_params h r))"
proof -
  have "distinct (map (fst \<circ> snd) (candidate_params h r))"
    unfolding candidate_keys by simp
  then have "distinct (map (fst \<circ> snd) (filter fst (candidate_params h r)))"
    by (rule distinct_map_filter)
  then show ?thesis by (simp add: sorted_params_filter)
qed

lemma ordered_keys_query_values:
  "Mapping.ordered_keys (query_values h r) = map fst (sorted_params h r)"
proof -
  have "sorted_list_of_set (set (map fst (sorted_params h r))) = map fst (sorted_params h r)"
    using sorted_sorted_params distinct_sorted_params
    by (rule sorted_list_of_set.idem_if_sorted_distinct)
  then show ?thesis
    unfolding Mapping.ordered_keys_def keys_query_values
    by (simp only: List.finite_set if_True)
qed

lemma lookup_default_query_values:
  "Mapping.lookup_default [] (query_values h r) k =
     (case map_of (sorted_params h r) k of None \<Rightarrow> [] | Some v \<Rightarrow> [v])"
  by (simp add: Mapping.lookup_default_def lookup_query_values split: option.splits)

lemma segments_of_params:
  "distinct (map fst ps) \<Longrightarrow>
   concat (map (\<lambda>k. map (\<lambda>x. QueryEscape k @ ''='' @ QueryEscape x)
       (case map_of ps k of None \<Rightarrow> [] | Some v \<Rightarrow> [v])) (map fst ps)) =
   map (\<lambda>(k, v). QueryEscape k @ ''='' @ QueryEscape v) ps"
proof (induction ps)
  case Nil
  show ?case by simp
next
  case (Cons p ps)
  obtain k v where p: "p = (k, v)" by (cases p)
  have notin: "k \<notin> fst ` set ps" using Cons.prems by (simp add: p)
  have same: "\<And>k'. k' \<in> set (map fst ps) \<Longrightarrow> map_of (p # ps) k' = map_of ps k'"
    using notin by (auto simp: p)
  have "concat (map (\<lambda>k. map (\<lambda>x. QueryEscape k @ ''='' @ QueryEscape x)
       (case map_of (p # ps) k of None \<Rightarrow> [] | Some v \<Rightarrow> [v])) (map fst ps)) =
     concat (map (\<lambda>k. map (\<lambda>x. QueryEscape k @ ''='' @ QueryEscape x)
       (case map_of ps k of None \<Rightarrow> [] | Some v \<Rightarrow> [v])) (map fst ps))"
    by (rule arg_cong [where f = concat], rule map_cong [OF refl]) (simp only: same)
  with Cons show ?case by (simp add: p)
qed

lemma Encode_segments_query_values:
  "Encode_segments (query_values h r) =
     map (\<lambda>(k, v). QueryEscape k @ ''='' @ QueryEscape v) (sorted_params h r)"
  unfolding Encode_segments_def ordered_keys_query_values lookup_default_query_values
  by (rule segments_of_params) (rule distinct_sorted_params)

lemma QueryEscape_keys:
  "QueryEscape ''key'' = ''key''" "QueryEscape ''language'' = ''language''"
  "QueryEscape ''latlng'' = ''latlng''" "QueryEscape ''location_type'' = ''location_type''"
  "QueryEscape ''place_id'' = ''place_id''" "QueryEscape ''result_type'' = ''result_type''"
  by (simp_all add: QueryEscape_def escape_byte_def shouldEscape_def)

lemma query_segments:
  "Encode_segments (query_values h r) = map write_param (sorted_params h r)"
  unfolding Encode_segments_query_values
  by (simp add: sorted_params_def QueryEscape_keys write_param_def)

lemma query_eq_Join: "query h r = Join (map write_param (sorted_params h r)) ''&''"
  by (simp only: query_def Encode_eq_Join query_segments)

lemma write_param_no_amp: "p \<in> set (sorted_params h r) \<Longrightarrow> CHR ''&'' \<notin> set (write_param p)"
  by (auto simp: sorted_params_def write_param_def QueryEscape_no_amp split: if_splits)

lemma split_query:
  "split_on (CHR ''&'') (query h r) = map write_param (sorted_params h r)"
proof -
  have ne: "map write_param (sorted_params h r) \<noteq> []"
    by (simp add: sorted_params_def)
  have "\<forall>x\<in>set (map write_param (sorted_params h r)). CHR ''&'' \<notin> set x"
    using write_param_no_amp by auto
  with ne show ?thesis
    unfolding query_eq_Join by (rule split_on_Join)
qed

lemma strip_prefix_append: "strip_prefix p (p @ s) = Some s"
  by (induction p) simp_all

lemma param_values_query:
  "param_values k (query h r) =
     concat (map (\<lambda>p. case strip_prefix (k @ ''='') (write_param p) of None \<Rightarrow> [] | Some v \<Rightarrow> [v])
       (sorted_params h r))"
  by (simp add: param_values_def split_query comp_def)

lemma param_values_key:
  "param_values ''key'' (query h r) = [QueryEscape (key (h (service r)))]"
  by (simp add: param_values_query sorted_params_def write_param_def)

lemma param_values_latlng:
  "param_values ''latlng'' (query h r) =
     (if f64_ne_zero (lat r) \<or> f64_ne_zero (lng r)
      then [QueryEscape (Sprintf_f (lat r) @ '','' @ Sprintf_f (lng r))] else [])"
  by (simp add: param_values_query sorted_params_def write_param_def)

lemma param_values_place_id:
  "param_values ''place_id'' (query h r) = (if PlaceId r \<noteq> [] then [QueryEscape (Language r)] else [])"
  by (simp add: param_values_query sorted_params_def write_param_def)

lemma param_values_language:
  "param_values ''language'' (query h r) = (if Language r \<noteq> [] then [QueryEscape (Language r)] else [])"
  by (simp add: param_values_query sorted_params_def write_param_def)

lemma param_values_result_type:
  "param_values ''result_type'' (query h r) =
     (if ResultType r \<noteq> [] then [QueryEscape (Join (ResultType r) ''|'')] else [])"
  by (simp add: param_values_query sorted_params_def write_param_def)

lemma param_values_location_type:
  "param_values ''location_type'' (query h r) =
     (if ReverseGeocodeCall.LocationType r \<noteq> []
      then [QueryEscape (Join (ReverseGeocodeCall.LocationType r) ''|'')] else [])"
  by (simp add: param_values_query sorted_params_def write_param_def)

lemma lookup_place_id:
  "Mapping.lookup (query_values h r) ''place_id'' = (if PlaceId r \<noteq> [] then Some [Language r] else None)"
  by (simp add: lookup_query_values sorted_params_def)

lemma lookup_latlng:
  "Mapping.lookup (query_values h r) ''latlng'' =
     (if f64_ne_zero (lat r) \<or> f64_ne_zero (lng r)
      then Some [Sprintf_f (lat r) @ '','' @ Sprintf_f (lng r)] else None)"
  by (simp add: lookup_query_values sorted_params_def)

lemma lookup_key:
  "Mapping.lookup (query_values h r) ''key'' = Some [key (h (service r))]"
  by (simp add: lookup_query_values sorted_params_def)

lemma lookup_result_type:
  "Mapping.lookup (query_values h r) ''result_type'' =
     (if ResultType r \<noteq> [] then Some [Join (ResultType r) ''|''] else None)"
  by (simp add: lookup_query_values sorted_params_def)

lemma lookup_location_type:
  "Mapping.lookup (query_values h r) ''location_type'' =
     (if ReverseGeocodeCall.LocationType r \<noteq> []
      then Some [Join (ReverseGeocodeCall.LocationType r) ''|''] else None)"
  by (simp add: lookup_query_values sorted_params_def)

lemma query_PlaceId_irrelevant:
  "PlaceId r \<noteq> [] \<Longrightarrow> p \<noteq> [] \<Longrightarrow> query h (r\<lparr>PlaceId := p\<rparr>) = query h r"
  by (simp add: query_eq_Join sorted_params_def)







lemma query_SetURL: "query (SetURL s u h) r = query h r"
  by (simp add: query_eq_Join sorted_params_def SetURL_def)

lemma Do_SetURL: "Do json_Unmarshal (SetURL s u h) n w = Do json_Unmarshal h n w"
proof -
  have client_eq: "client (SetURL s u h (service n)) = client (h (service n))"
    by (simp add: SetURL_def)
  show ?thesis
    unfolding Do_def query_SetURL client_eq by (rule refl)
qed

section \<open>Floats and their formatting\<close>

lemma zero_fields_iff:
  fixes n :: nat
  assumes lt: "n < 2 ^ 64"
  shows "(n div 2 ^ 52 mod 2 ^ 11 = 0 \<and> n mod 2 ^ 52 = 0) \<longleftrightarrow> (n = 0 \<or> n = 2 ^ 63)"
proof
  assume a: "n div 2 ^ 52 mod 2 ^ 11 = 0 \<and> n mod 2 ^ 52 = 0"
  define q where "q = n div 2 ^ 52"
  define t where "t = q div 2 ^ 11"
  have n_eq: "n = q * 2 ^ 52"
    using a div_mult_mod_eq [of n "2 ^ 52"] by (simp add: q_def)
  have q_eq: "q = t * 2 ^ 11"
    using a div_mult_mod_eq [of q "2 ^ 11"] by (simp add: q_def t_def)
  have "n < 2 ^ 12 * 2 ^ 52" using lt by simp
  then have "q < 2 ^ 12" unfolding q_def by (rule less_mult_imp_div_less)
  then have "q < 2 * 2 ^ 11" by simp
  then have "t < 2" unfolding t_def by (rule less_mult_imp_div_less)
  then have "t = 0 \<or> t = 1" by linarith
  then show "n = 0 \<or> n = 2 ^ 63"
  proof
    assume "t = 0" then show ?thesis by (simp add: n_eq q_eq)
  next
    assume "t = 1" then show ?thesis by (simp add: n_eq q_eq)
  qed
next
  assume "n = 0 \<or> n = 2 ^ 63"
  then show "n div 2 ^ 52 mod 2 ^ 11 = 0 \<and> n mod 2 ^ 52 = 0"
  proof
    assume "n = 0" then show ?thesis by simp
  next
    assume "n = 2 ^ 63" then show ?thesis by simp
  qed
qed


lemma f64_ne_zero_iff: "f64_ne_zero x \<longleftrightarrow> f64_exp x \<noteq> 0 \<or> f64_mant x \<noteq> 0"
proof -
  have lt: "unat x < 2 ^ 64" using unsigned_less [of x] by simp
  have a: "x = 0 \<longleftrightarrow> unat x = 0" by (simp add: unat_eq_0)
  have b: "x = 0x8000000000000000 \<longleftrightarrow> unat x = 2 ^ 63"
    by (simp add: word_unat_eq_iff)
  have "f64_ne_zero x \<longleftrightarrow> \<not> (unat x = 0 \<or> unat x = 2 ^ 63)"
    unfolding f64_ne_zero_def a b by (rule de_Morgan_disj [symmetric])
  also have "\<dots> \<longleftrightarrow> \<not> (unat x div 2 ^ 52 mod 2 ^ 11 = 0 \<and> unat x mod 2 ^ 52 = 0)"
    by (simp only: zero_fields_iff [OF lt])
  finally show ?thesis by (simp only: f64_exp_def f64_mant_def de_Morgan_conj)
qed

lemma length_frac6: "length (frac6 k) = 6"
  by (simp add: frac6_def)

lemma digit_char: "d < 10 \<Longrightarrow> decimal_digit (''0123456789'' ! d)"
  by (auto simp: decimal_digit_def eval_nat_numeral less_Suc_eq)

lemma frac6_digits: "c \<in> set (frac6 k) \<Longrightarrow> decimal_digit c"
  by (auto simp: frac6_def intro!: digit_char)

lemma digits10_digits: "c \<in> set (digits10 n) \<Longrightarrow> decimal_digit c"
proof (induction n rule: digits10.induct)
  case (1 n)
  show ?case
  proof (cases "n < 10")
    case True
    with "1.prems" have "c = ''0123456789'' ! n" by (simp add: digits10.simps)
    with True digit_char show ?thesis by blast
  next
    case False
    have "digits10 n = digits10 (n div 10) @ [''0123456789'' ! (n mod 10)]"
      using False by (subst digits10.simps) simp
    with "1.prems" have "c \<in> set (digits10 (n div 10)) \<or> c = ''0123456789'' ! (n mod 10)"
      by auto
    moreover have "n mod 10 < 10" by simp
    ultimately show ?thesis using "1.IH" False digit_char by blast
  qed
qed

lemma digits10_nonempty: "digits10 n \<noteq> []"
  by (subst digits10.simps) simp

lemma Sprintf_f_finite:
  assumes "f64_exp x \<noteq> 2047"
  shows "\<exists>ip fr. Sprintf_f x = (if f64_neg x then ''-'' else []) @ ip @ ''.'' @ fr
           \<and> ip \<noteq> [] \<and> (\<forall>c\<in>set ip. decimal_digit c)
           \<and> length fr = 6 \<and> (\<forall>c\<in>set fr. decimal_digit c)"
proof -
  define n where "n = scaled6 (if f64_exp x = 0 then f64_mant x else f64_mant x + 2 ^ 52)
    (if f64_exp x = 0 then 1 else f64_exp x)"
  have eq: "Sprintf_f x = (if f64_neg x then ''-'' else []) @ digits10 (n div 10 ^ 6) @ ''.'' @ frac6 (n mod 10 ^ 6)"
    using assms by (simp add: Sprintf_f_def Let_def n_def)
  have "digits10 (n div 10 ^ 6) \<noteq> []" by (rule digits10_nonempty)
  moreover have "\<forall>c\<in>set (digits10 (n div 10 ^ 6)). decimal_digit c"
    using digits10_digits by blast
  moreover have "length (frac6 (n mod 10 ^ 6)) = 6" by (rule length_frac6)
  moreover have "\<forall>c\<in>set (frac6 (n mod 10 ^ 6)). decimal_digit c"
    using frac6_digits by blast
  ultimately show ?thesis using eq by blast
qed

text \<open>
  \<open>scaled6\<close> is exact for an integral value and otherwise within half a unit of the
  sixth decimal; \<open>digits10\<close> writes the number it is given.
\<close>

lemma scaled6_exact: "1075 \<le> e \<Longrightarrow> scaled6 m e = m * 10 ^ 6 * 2 ^ (e - 1075)"
  by (simp add: scaled6_def)

lemma scaled6_nearest:
  assumes "e < 1075"
  shows "2 * (scaled6 m e * 2 ^ (1075 - e)) \<le> 2 * (m * 10 ^ 6) + 2 ^ (1075 - e)
       \<and> 2 * (m * 10 ^ 6) \<le> 2 * (scaled6 m e * 2 ^ (1075 - e)) + 2 ^ (1075 - e)"
proof -
  define d :: nat where "d = 2 ^ (1075 - e)"
  define x :: nat where "x = m * 10 ^ 6"
  define q where "q = x div d"
  define r where "r = x mod d"
  have dpos: "0 < d" by (simp add: d_def)
  have x_eq: "x = q * d + r" by (simp add: q_def r_def)
  have r_lt: "r < d" using dpos by (simp add: r_def)
  have n_eq: "scaled6 m e = (if d < 2 * r \<or> (2 * r = d \<and> odd q) then q + 1 else q)"
    using assms by (simp add: scaled6_def Let_def d_def x_def q_def r_def)
  have "2 * (scaled6 m e * d) \<le> 2 * x + d \<and> 2 * x \<le> 2 * (scaled6 m e * d) + d"
  proof (cases "d < 2 * r \<or> (2 * r = d \<and> odd q)")
    case True
    then have n: "scaled6 m e = q + 1" by (simp add: n_eq)
    from True have "d \<le> 2 * r" by auto
    with r_lt show ?thesis unfolding n x_eq by (simp add: algebra_simps)
  next
    case False
    then have n: "scaled6 m e = q" by (simp add: n_eq)
    from False have "2 * r \<le> d" by auto
    then show ?thesis unfolding n x_eq by (simp add: algebra_simps)
  qed
  then show ?thesis by (simp only: d_def x_def)
qed

lemma digit_value: "d < 10 \<Longrightarrow> of_char (''0123456789'' ! d) - 48 = d"
  by (auto simp: eval_nat_numeral less_Suc_eq)

lemma decimal_value_snoc: "decimal_value (s @ [c]) = 10 * decimal_value s + (of_char c - 48)"
  by (simp add: decimal_value_def)

lemma decimal_value_digits10: "decimal_value (digits10 n) = n"
proof (induction n rule: digits10.induct)
  case (1 n)
  show ?case
  proof (cases "n < 10")
    case True
    then have "digits10 n = [''0123456789'' ! n]" by (subst digits10.simps) simp
    then show ?thesis using digit_value [OF True] by (simp add: decimal_value_def)
  next
    case False
    have d: "n mod 10 < 10" by simp
    have "digits10 n = digits10 (n div 10) @ [''0123456789'' ! (n mod 10)]"
      using False by (subst digits10.simps) simp
    then have "decimal_value (digits10 n) = 10 * (n div 10) + n mod 10"
      using "1.IH" [OF False] digit_value [OF d] by (simp only: decimal_value_snoc)
    then show ?thesis by simp
  qed
qed

text \<open>\<open>Sprintf_f\<close> meets the formatting the specification words.\<close>

lemma nearest_micro_small:
  "e < 1075 \<Longrightarrow> nearest_micro m e n =
     (2 * (n * 2 ^ (1075 - e)) \<le> 2 * (m * 10 ^ 6) + 2 ^ (1075 - e)
      \<and> 2 * (m * 10 ^ 6) \<le> 2 * (n * 2 ^ (1075 - e)) + 2 ^ (1075 - e)
      \<and> ((2 * (n * 2 ^ (1075 - e)) = 2 * (m * 10 ^ 6) + 2 ^ (1075 - e)
           \<or> 2 * (n * 2 ^ (1075 - e)) + 2 ^ (1075 - e) = 2 * (m * 10 ^ 6)) \<longrightarrow> even n))"
  by (simp add: nearest_micro_def)

lemma scaled6_nearest_micro: "nearest_micro m e (scaled6 m e)"
proof (cases "1075 \<le> e")
  case True
  then show ?thesis by (simp add: nearest_micro_def scaled6_def)
next
  case False
  define d :: nat where "d = 2 ^ (1075 - e)"
  define x :: nat where "x = m * 10 ^ 6"
  define q where "q = x div d"
  define r where "r = x mod d"
  have dpos: "0 < d" by (simp add: d_def)
  have x_eq: "x = q * d + r" by (simp add: q_def r_def)
  have r_lt: "r < d" using dpos by (simp add: r_def)
  have n_eq: "scaled6 m e = (if d < 2 * r \<or> (2 * r = d \<and> odd q) then q + 1 else q)"
    using False by (simp add: scaled6_def Let_def d_def x_def q_def r_def)
  have small: "e < 1075" using False by simp
  have main: "2 * (scaled6 m e * d) \<le> 2 * x + d \<and> 2 * x \<le> 2 * (scaled6 m e * d) + d
      \<and> ((2 * (scaled6 m e * d) = 2 * x + d \<or> 2 * (scaled6 m e * d) + d = 2 * x)
           \<longrightarrow> even (scaled6 m e))"
  proof (cases "d < 2 * r \<or> (2 * r = d \<and> odd q)")
    case True
    then have n: "scaled6 m e = q + 1" by (simp add: n_eq)
    from True have le: "d \<le> 2 * r" by auto
    have tie: "2 * r = d \<Longrightarrow> odd q" using True by auto
    have a: "2 * ((q + 1) * d) = 2 * (q * d) + 2 * d" by (simp add: algebra_simps)
    show ?thesis unfolding n x_eq a using le r_lt tie by auto
  next
    case False
    then have n: "scaled6 m e = q" by (simp add: n_eq)
    from False have le: "2 * r \<le> d" by auto
    have tie: "2 * r = d \<Longrightarrow> even q" using False by auto
    show ?thesis unfolding n x_eq using le tie by auto
  qed
  show ?thesis
    unfolding nearest_micro_small [OF small] using main unfolding d_def x_def .
qed

lemma decimal_value_foldl:
  "foldl (\<lambda>a c. 10 * a + (of_char c - 48)) acc b
     = acc * 10 ^ length b + foldl (\<lambda>a c. 10 * a + (of_char c - 48)) (0::nat) b"
proof (induction b arbitrary: acc)
  case Nil
  show ?case by simp
next
  case (Cons c b)
  let ?f = "\<lambda>a c. 10 * a + (of_char c - 48) :: nat"
  let ?v = "of_char c - 48 :: nat"
  have "foldl ?f acc (c # b) = foldl ?f (10 * acc + ?v) b" by simp
  also have "\<dots> = (10 * acc + ?v) * 10 ^ length b + foldl ?f 0 b" by (rule Cons.IH)
  finally have l: "foldl ?f acc (c # b) = (10 * acc + ?v) * 10 ^ length b + foldl ?f 0 b" .
  have "foldl ?f 0 (c # b) = foldl ?f ?v b" by simp
  also have "\<dots> = ?v * 10 ^ length b + foldl ?f 0 b" by (rule Cons.IH)
  finally have r: "foldl ?f 0 (c # b) = ?v * 10 ^ length b + foldl ?f 0 b" .
  show ?case by (subst l, subst r) (simp add: algebra_simps)
qed

lemma decimal_value_append:
  "decimal_value (a @ b) = decimal_value a * 10 ^ length b + decimal_value b"
  unfolding decimal_value_def foldl_append by (rule decimal_value_foldl)

lemma digit_expand:
  fixes k :: nat
  shows "k mod 10 ^ Suc i = (k div 10 ^ i mod 10) * 10 ^ i + k mod 10 ^ i"
  using mod_mult2_eq [of k "10 ^ i" 10] by (simp add: mult.commute)

lemma decimal_value_frac6:
  assumes "k < 10 ^ 6"
  shows "decimal_value (frac6 k) = k"
proof -
  have d: "\<And>i. of_char (''0123456789'' ! (k div 10 ^ i mod 10)) - 48 = k div 10 ^ i mod 10"
    by (rule digit_value) simp
  have "decimal_value (frac6 k) =
      (k div 10 ^ 5 mod 10) * 10 ^ 5 + (k div 10 ^ 4 mod 10) * 10 ^ 4 + (k div 10 ^ 3 mod 10) * 10 ^ 3
      + (k div 10 ^ 2 mod 10) * 10 ^ 2 + (k div 10 ^ 1 mod 10) * 10 ^ 1 + (k div 10 ^ 0 mod 10) * 10 ^ 0"
    unfolding frac6_def decimal_value_def list.map foldl.simps d by simp
  also have "\<dots> = k mod 10 ^ 6"
    using digit_expand [of k 5] digit_expand [of k 4] digit_expand [of k 3]
      digit_expand [of k 2] digit_expand [of k 1] digit_expand [of k 0]
    by (simp only: numeral_eq_Suc Suc_eq_plus1 [symmetric] One_nat_def) simp
  finally show ?thesis using assms by simp
qed

lemma digits10_zero_iff: "digits10 n = ''0'' \<Longrightarrow> n = 0"
proof -
  assume a: "digits10 n = ''0''"
  have z: "decimal_value ''0'' = 0" by (simp add: decimal_value_def)
  have "n = decimal_value (digits10 n)" by (simp only: decimal_value_digits10)
  then show ?thesis unfolding a z .
qed

lemma digit_nonzero: "0 < d \<Longrightarrow> d < 10 \<Longrightarrow> ''0123456789'' ! d \<noteq> CHR ''0''"
  by (auto simp: eval_nat_numeral less_Suc_eq)

lemma digits10_canonical: "digits10 n = ''0'' \<or> hd (digits10 n) \<noteq> CHR ''0''"
proof (induction n rule: digits10.induct)
  case (1 n)
  show ?case
  proof (cases "n < 10")
    case True
    then have eq: "digits10 n = [''0123456789'' ! n]" by (subst digits10.simps) simp
    show ?thesis
    proof (cases "n = 0")
      case True
      then show ?thesis using eq by simp
    next
      case False
      then have "''0123456789'' ! n \<noteq> CHR ''0''" using True by (intro digit_nonzero) simp_all
      then show ?thesis by (simp only: eq list.sel) blast
    qed
  next
    case False
    have eq: "digits10 n = digits10 (n div 10) @ [''0123456789'' ! (n mod 10)]"
      using False by (subst digits10.simps) simp
    have "n div 10 \<noteq> 0" using False by simp
    then have "digits10 (n div 10) \<noteq> ''0''" using digits10_zero_iff [of "n div 10"] by auto
    then have "hd (digits10 (n div 10)) \<noteq> CHR ''0''" using "1.IH" [OF False] by blast
    then have "hd (digits10 n) \<noteq> CHR ''0''"
      by (simp add: eq digits10_nonempty)
    then show ?thesis by blast
  qed
qed

lemma six_decimals_shape:
  assumes ne: "ip \<noteq> []" and ipd: "list_all decimal_digit ip"
    and can: "ip = ''0'' \<or> hd ip \<noteq> CHR ''0''"
    and len: "length fr = 6" and frd: "list_all decimal_digit fr"
    and near: "nearest_micro m e (decimal_value (ip @ fr))"
  shows "six_decimals neg m e ((if neg then ''-'' else []) @ ip @ ''.'' @ fr)"
proof -
  let ?s = "(if neg then ''-'' else []) @ ip @ ''.'' @ fr"
  let ?body = "ip @ CHR ''.'' # fr"
  have body: "(if neg then drop 1 ?s else ?s) = ?body" by simp
  have l: "length ?body - 7 = length ip" using len by simp
  have l6: "length ?body - 6 = Suc (length ip)" using len by simp
  have t: "take (length ip) ?body = ip" by simp
  have d: "drop (Suc (length ip)) ?body = fr" by simp
  have n: "?body ! length ip = CHR ''.''" by simp
  have g: "8 \<le> length ?body" using ne len by (cases ip) simp_all
  have s: "neg \<longrightarrow> take 1 ?s = ''-''" by simp
  show ?thesis
    unfolding six_decimals_def Let_def body l l6 t d n
    using s g ipd can frd near by simp
qed

lemma default_float_format_Sprintf_f: "default_float_format x (Sprintf_f x)"
proof (cases "f64_exp x = 2047")
  case True
  then show ?thesis
    by (simp add: default_float_format_def Sprintf_f_def f64_exp_def f64_mant_def f64_neg_def Let_def)
next
  case False
  define m where "m = (if f64_exp x = 0 then f64_mant x else f64_mant x + 2 ^ 52)"
  define e where "e = (if f64_exp x = 0 then 1 else f64_exp x)"
  define n where "n = scaled6 m e"
  let ?ip = "digits10 (n div 10 ^ 6)"
  let ?fr = "frac6 (n mod 10 ^ 6)"
  have eq: "Sprintf_f x = (if f64_neg x then ''-'' else []) @ ?ip @ ''.'' @ ?fr"
    using False by (simp add: Sprintf_f_def Let_def n_def m_def e_def)
  have val: "decimal_value (?ip @ ?fr) = n"
    by (simp add: decimal_value_append decimal_value_digits10 decimal_value_frac6 length_frac6)
  have "nearest_micro m e n"
    unfolding n_def by (rule scaled6_nearest_micro)
  then have near: "nearest_micro m e (decimal_value (?ip @ ?fr))"
    by (simp only: val)
  have ipd: "list_all decimal_digit ?ip"
    using digits10_digits by (auto simp: list_all_iff)
  have frd: "list_all decimal_digit ?fr"
    using frac6_digits by (auto simp: list_all_iff)
  have six: "six_decimals (f64_neg x) m e (Sprintf_f x)"
    unfolding eq
    by (rule six_decimals_shape [OF digits10_nonempty ipd digits10_canonical length_frac6 frd near])
  have "default_float_format x (Sprintf_f x) = six_decimals (f64_neg x) m e (Sprintf_f x)"
    using False
    unfolding default_float_format_def Let_def m_def e_def f64_exp_def f64_mant_def f64_neg_def
    by (simp only: if_False)
  then show ?thesis using six by (rule iffD2)
qed

lemma QueryEscape_kept:
  "\<forall>c\<in>set s. \<not> shouldEscape c \<Longrightarrow> QueryEscape s = s"
proof (induction s)
  case Nil
  show ?case by (simp add: QueryEscape_def)
next
  case (Cons c s)
  have "\<not> shouldEscape c" using Cons.prems by simp
  moreover have "shouldEscape (CHR '' '')" by (simp add: shouldEscape_def)
  ultimately have "escape_byte c = [c]" by (auto simp: escape_byte_def)
  moreover have "QueryEscape s = s" using Cons by simp
  ultimately show ?case by (simp add: QueryEscape_def)
qed

lemma decimal_digit_kept: "decimal_digit c \<Longrightarrow> \<not> shouldEscape c"
  by (simp add: decimal_digit_def shouldEscape_def)

lemma QueryEscape_Sprintf_f_finite:
  assumes "f64_exp x \<noteq> 2047"
  shows "QueryEscape (Sprintf_f x) = Sprintf_f x"
proof (rule QueryEscape_kept, rule ballI)
  fix c assume c: "c \<in> set (Sprintf_f x)"
  obtain ip fr where eq: "Sprintf_f x = (if f64_neg x then ''-'' else []) @ ip @ ''.'' @ fr"
    and ipd: "\<forall>c\<in>set ip. decimal_digit c" and frd: "\<forall>c\<in>set fr. decimal_digit c"
    using Sprintf_f_finite [OF assms] by blast
  from c have "c = CHR ''-'' \<or> c \<in> set ip \<or> c = CHR ''.'' \<or> c \<in> set fr"
    unfolding eq by (auto split: if_splits)
  moreover have "\<not> shouldEscape (CHR ''-'')" "\<not> shouldEscape (CHR ''.'')"
    by (simp_all add: shouldEscape_def)
  ultimately show "\<not> shouldEscape c"
    using ipd frd decimal_digit_kept by blast
qed

section \<open>The model at concrete inputs\<close>

lemma Sprintf_f_1_5: "Sprintf_f 0x3FF8000000000000 = ''1.500000''"
proof -
  have "f64_exp 0x3FF8000000000000 = 1023" by (simp add: f64_exp_def)
  moreover have "f64_mant 0x3FF8000000000000 = 2251799813685248" by (simp add: f64_mant_def)
  moreover have "\<not> f64_neg 0x3FF8000000000000" by (simp add: f64_neg_def)
  moreover have "scaled6 6755399441055744 1023 = 1500000" by (simp add: scaled6_def Let_def)
  ultimately show ?thesis by (simp add: Sprintf_f_def frac6_def digits10.simps)
qed

lemma Sprintf_f_2_5: "Sprintf_f 0x4004000000000000 = ''2.500000''"
proof -
  have "f64_exp 0x4004000000000000 = 1024" by (simp add: f64_exp_def)
  moreover have "f64_mant 0x4004000000000000 = 1125899906842624" by (simp add: f64_mant_def)
  moreover have "\<not> f64_neg 0x4004000000000000" by (simp add: f64_neg_def)
  moreover have "scaled6 5629499534213120 1024 = 2500000" by (simp add: scaled6_def Let_def)
  ultimately show ?thesis by (simp add: Sprintf_f_def frac6_def digits10.simps)
qed

lemma Sprintf_f_0_1: "Sprintf_f 0x3FB999999999999A = ''0.100000''"
proof -
  have "f64_exp 0x3FB999999999999A = 1019" by (simp add: f64_exp_def)
  moreover have "f64_mant 0x3FB999999999999A = 2702159776422298" by (simp add: f64_mant_def)
  moreover have "\<not> f64_neg 0x3FB999999999999A" by (simp add: f64_neg_def)
  moreover have "scaled6 7205759403792794 1019 = 100000" by (simp add: scaled6_def Let_def)
  ultimately show ?thesis by (simp add: Sprintf_f_def frac6_def digits10.simps)
qed

lemma Sprintf_f_neg: "Sprintf_f 0xC05EDD2F1A9FBE77 = ''-123.456000''"
proof -
  have "f64_exp 0xC05EDD2F1A9FBE77 = 1029" by (simp add: f64_exp_def)
  moreover have "f64_mant 0xC05EDD2F1A9FBE77 = 4183844053827191" by (simp add: f64_mant_def)
  moreover have "f64_neg 0xC05EDD2F1A9FBE77" by (simp add: f64_neg_def)
  moreover have "scaled6 8687443681197687 1029 = 123456000" by (simp add: scaled6_def Let_def)
  ultimately show ?thesis by (simp add: Sprintf_f_def frac6_def digits10.simps)
qed

lemma scaled6_zero: "scaled6 0 e = 0"
  by (simp add: scaled6_def)

lemma Sprintf_f_zero: "Sprintf_f 0 = ''0.000000''"
  by (simp add: Sprintf_f_def f64_exp_def f64_mant_def f64_neg_def scaled6_zero frac6_def digits10.simps)

lemma Sprintf_f_neg_zero: "Sprintf_f 0x8000000000000000 = ''-0.000000''"
  by (simp add: Sprintf_f_def f64_exp_def f64_mant_def f64_neg_def scaled6_zero frac6_def digits10.simps)

lemma Sprintf_f_NaN: "Sprintf_f 0x7FF8000000000000 = ''NaN''"
  by (simp add: Sprintf_f_def f64_exp_def f64_mant_def)

lemma Sprintf_f_Inf: "Sprintf_f 0x7FF0000000000000 = ''+Inf''"
  by (simp add: Sprintf_f_def f64_exp_def f64_mant_def f64_neg_def)

lemma f64_ne_zero_iff_bits: "f64_ne_zero x \<longleftrightarrow> x \<notin> {0, 0x8000000000000000}"
  by (simp add: f64_ne_zero_def)

lemma QueryEscape_comma: "QueryEscape (a @ '','' @ b) = QueryEscape a @ ''%2C'' @ QueryEscape b"
  by (simp add: QueryEscape_append QueryEscape_Cons escape_byte_def shouldEscape_def upperhex_def)


lemma f64_ne_zero_examples:
  "\<not> f64_ne_zero 0" "\<not> f64_ne_zero 0x8000000000000000"
  "f64_ne_zero 0x3FF8000000000000" "f64_ne_zero 0x4004000000000000" "f64_ne_zero 0x7FF8000000000000"
  by (simp_all add: f64_ne_zero_def)

lemma QueryEscape_examples:
  "QueryEscape ''1.500000,2.500000'' = ''1.500000%2C2.500000''"
  "QueryEscape ''country|postal_code'' = ''country%7Cpostal_code''"
  "QueryEscape ''a b&c=d/e~f'' = ''a+b%26c%3Dd%2Fe~f''"
  by (simp_all add: QueryEscape_def escape_byte_def shouldEscape_def upperhex_def)

lemma query_example:
  "query (\<lambda>_. NewService c ''K'')
     ((ReverseGeocode 0 0x3FF8000000000000 0x4004000000000000)
        \<lparr>PlaceId := ''abc'', Language := ''th'', ResultType := [''country'', ''postal_code'']\<rparr>) =
   ''key=K&language=th&latlng=1.500000%2C2.500000&place_id=th&result_type=country%7Cpostal_code''"
  by (simp add: query_eq_Join sorted_params_def write_param_def NewService_def ReverseGeocode_def
      f64_ne_zero_examples Sprintf_f_1_5 Sprintf_f_2_5)
     (simp add: QueryEscape_def escape_byte_def shouldEscape_def upperhex_def)

section \<open>Validation\<close>

text \<open>
  C3. \<open>validate\<close> succeeds exactly when a coordinate is not zero (the Go comparison
  \<open>!= 0\<close>, \<open>f64_ne_zero\<close>) or the place identifier is not empty; it fails, with
  \<open>errLatLngOrPlaceIdRequire\<close>, exactly when both coordinates are zero and the place
  identifier is empty; a non-empty place identifier is enough, whatever the coordinates.
\<close>

theorem validate_iff_locator:
  "(validate n = None \<longleftrightarrow> (f64_ne_zero (lat n) \<or> f64_ne_zero (lng n)) \<or> PlaceId n \<noteq> [])
   \<and> (validate n = Some errLatLngOrPlaceIdRequire \<longleftrightarrow>
        \<not> f64_ne_zero (lat n) \<and> \<not> f64_ne_zero (lng n) \<and> PlaceId n = [])
   \<and> (PlaceId n \<noteq> [] \<longrightarrow> validate n = None)"
  by (simp add: validate_def)

theorem validate_iff_locator_witness:
  "validate (ReverseGeocode 0 0 0) = Some errLatLngOrPlaceIdRequire
   \<and> validate (ReverseGeocode 0 0 0x8000000000000000) = Some errLatLngOrPlaceIdRequire
   \<and> validate ((ReverseGeocode 0 0 0)\<lparr>PlaceId := ''abc''\<rparr>) = None
   \<and> validate (ReverseGeocode 0 0x3FF8000000000000 0) = None"
  using validate_iff_locator [of "ReverseGeocode 0 0 0"]
    validate_iff_locator [of "ReverseGeocode 0 0 0x8000000000000000"]
    validate_iff_locator [of "(ReverseGeocode 0 0 0)\<lparr>PlaceId := ''abc''\<rparr>"]
    validate_iff_locator [of "ReverseGeocode 0 0x3FF8000000000000 0"]
  by (simp add: ReverseGeocode_def f64_ne_zero_def)

section \<open>The query string\<close>

text \<open>
  C8. Whatever the optional fields are, the values built by \<open>query\<close> hold the service's
  API key under \<open>key\<close>, the encoded query carries exactly one \<open>key\<close> parameter, the
  escaped API key, and the query string begins with it.
\<close>

theorem query_has_key:
  "Mapping.lookup (query_values h r) ''key'' = Some [key (h (service r))]
   \<and> param_values ''key'' (query h r) = [QueryEscape (key (h (service r)))]
   \<and> (\<exists>rest. query h r = ''key='' @ QueryEscape (key (h (service r))) @ rest)"
proof -
  have "\<exists>rest. query h r = ''key='' @ QueryEscape (key (h (service r))) @ rest"
    unfolding query_eq_Join
    by (simp add: sorted_params_def write_param_def Join_Cons)
  then show ?thesis by (simp add: lookup_key param_values_key)
qed

theorem query_has_key_witness:
  "param_values ''key''
     (query (\<lambda>_. NewService (mock_client 200 []) ''AIza-Sy_9'') ((ReverseGeocode 0 0 0)\<lparr>PlaceId := ''abc''\<rparr>))
     = [''AIza-Sy_9'']"
  using query_has_key [of "\<lambda>_. NewService (mock_client 200 []) ''AIza-Sy_9''" "(ReverseGeocode 0 0 0)\<lparr>PlaceId := ''abc''\<rparr>"]
  by (simp add: ReverseGeocode_def NewService_def QueryEscape_def escape_byte_def shouldEscape_def)

text \<open>
  C6. The query has a \<open>latlng\<close> parameter exactly when a coordinate is not zero (its bits
  are neither those of \<open>+0\<close> nor those of \<open>-0\<close>), and none when both are zero. Its value
  is the formatting of the latitude, a comma and the formatting of the longitude; in the
  query string the comma is written \<open>%2C\<close>. Each coordinate is formatted as the
  specification words the default float formatting: a finite one with six decimals,
  rounded to the nearest, and written into the query string as it is; a NaN as \<open>NaN\<close>
  and an infinity as \<open>+Inf\<close> or \<open>-Inf\<close>.
\<close>

theorem query_latlng:
  "Mapping.lookup (query_values h r) ''latlng'' =
     (if lat r \<notin> {0, 0x8000000000000000} \<or> lng r \<notin> {0, 0x8000000000000000}
      then Some [Sprintf_f (lat r) @ '','' @ Sprintf_f (lng r)] else None)
   \<and> param_values ''latlng'' (query h r) =
     (if lat r \<notin> {0, 0x8000000000000000} \<or> lng r \<notin> {0, 0x8000000000000000}
      then [QueryEscape (Sprintf_f (lat r)) @ ''%2C'' @ QueryEscape (Sprintf_f (lng r))] else [])
   \<and> default_float_format (lat r) (Sprintf_f (lat r))
   \<and> default_float_format (lng r) (Sprintf_f (lng r))
   \<and> (unat (lat r) div 2 ^ 52 mod 2 ^ 11 \<noteq> 2047 \<longrightarrow>
        QueryEscape (Sprintf_f (lat r)) = Sprintf_f (lat r))
   \<and> (unat (lng r) div 2 ^ 52 mod 2 ^ 11 \<noteq> 2047 \<longrightarrow>
        QueryEscape (Sprintf_f (lng r)) = Sprintf_f (lng r))"
proof -
  have a: "Mapping.lookup (query_values h r) ''latlng'' =
     (if lat r \<notin> {0, 0x8000000000000000} \<or> lng r \<notin> {0, 0x8000000000000000}
      then Some [Sprintf_f (lat r) @ '','' @ Sprintf_f (lng r)] else None)"
    unfolding lookup_latlng f64_ne_zero_iff_bits by (rule refl)
  have b: "param_values ''latlng'' (query h r) =
     (if lat r \<notin> {0, 0x8000000000000000} \<or> lng r \<notin> {0, 0x8000000000000000}
      then [QueryEscape (Sprintf_f (lat r)) @ ''%2C'' @ QueryEscape (Sprintf_f (lng r))] else [])"
    unfolding param_values_latlng f64_ne_zero_iff_bits QueryEscape_comma by (rule refl)
  have c: "unat x div 2 ^ 52 mod 2 ^ 11 \<noteq> 2047 \<longrightarrow> QueryEscape (Sprintf_f x) = Sprintf_f x" for x
    using QueryEscape_Sprintf_f_finite [of x] unfolding f64_exp_def by (rule impI)
  from a b c [of "lat r"] c [of "lng r"] show ?thesis
    by (intro conjI default_float_format_Sprintf_f)
qed

theorem query_latlng_witness:
  "param_values ''latlng''
     (query (\<lambda>_. NewService (mock_client 200 []) ''K'')
        (ReverseGeocode 0 0x3FF8000000000000 0x4004000000000000))
     = [''1.500000%2C2.500000'']
   \<and> default_float_format 0x3FF8000000000000 ''1.500000''
   \<and> default_float_format 0x4004000000000000 ''2.500000''
   \<and> param_values ''latlng''
     (query (\<lambda>_. NewService (mock_client 200 []) ''K'')
        ((ReverseGeocode 0 0 0x8000000000000000)\<lparr>PlaceId := ''abc''\<rparr>))
     = []"
proof -
  let ?h = "\<lambda>_::nat. NewService (mock_client 200 []) ''K''"
  let ?r = "ReverseGeocode 0 0x3FF8000000000000 0x4004000000000000"
  let ?z = "(ReverseGeocode 0 0 0x8000000000000000)\<lparr>PlaceId := ''abc''\<rparr>"
  have la: "lat ?r = 0x3FF8000000000000" and lo: "lng ?r = 0x4004000000000000"
    by (simp_all add: ReverseGeocode_def)
  have fin: "unat (0x3FF8000000000000 :: float64) div 2 ^ 52 mod 2 ^ 11 \<noteq> 2047"
    "unat (0x4004000000000000 :: float64) div 2 ^ 52 mod 2 ^ 11 \<noteq> 2047"
    by simp_all
  note t = query_latlng [of ?h ?r, unfolded la lo Sprintf_f_1_5 Sprintf_f_2_5]
  have nz: "(0x3FF8000000000000 :: float64) \<notin> {0, 0x8000000000000000}" by simp
  from t have v: "param_values ''latlng'' (query ?h ?r)
      = [QueryEscape ''1.500000'' @ ''%2C'' @ QueryEscape ''2.500000'']"
    using nz by simp
  from t fin have e: "QueryEscape ''1.500000'' = ''1.500000''" "QueryEscape ''2.500000'' = ''2.500000''"
    by blast+
  from t have d: "default_float_format 0x3FF8000000000000 ''1.500000''"
    "default_float_format 0x4004000000000000 ''2.500000''"
    by blast+
  have z: "param_values ''latlng'' (query ?h ?z) = []"
    using query_latlng [of ?h ?z] by (simp add: ReverseGeocode_def)
  from v e d z show ?thesis by simp
qed

text \<open>
  A NaN and an infinity are not zero, so they are sent, and their formatting has no
  decimals: the coordinates (NaN, +Inf) give the value \<open>NaN,+Inf\<close>.
\<close>

theorem query_latlng_NaN_Inf:
  "Mapping.lookup
     (query_values (\<lambda>_. NewService (mock_client 200 []) ''K'')
        (ReverseGeocode 0 0x7FF8000000000000 0x7FF0000000000000)) ''latlng''
     = Some [''NaN,+Inf'']
   \<and> param_values ''latlng''
     (query (\<lambda>_. NewService (mock_client 200 []) ''K'')
        (ReverseGeocode 0 0x7FF8000000000000 0x7FF0000000000000))
     = [''NaN%2C%2BInf'']"
  by (simp add: lookup_latlng param_values_latlng ReverseGeocode_def f64_ne_zero_def
       Sprintf_f_NaN Sprintf_f_Inf)
     (simp add: QueryEscape_def escape_byte_def shouldEscape_def upperhex_def)

text \<open>
  C2. When the place identifier is not empty the query has a \<open>place_id\<close> parameter, and
  its value is the \<open>Language\<close> field: the place identifier itself is not written, and
  replacing it by any other non-empty identifier leaves the query string unchanged.
\<close>

theorem query_place_id_is_Language:
  assumes "PlaceId r \<noteq> []"
  shows "Mapping.lookup (query_values h r) ''place_id'' = Some [Language r]
         \<and> param_values ''place_id'' (query h r) = [QueryEscape (Language r)]
         \<and> (\<forall>p. p \<noteq> [] \<longrightarrow> query h (r\<lparr>PlaceId := p\<rparr>) = query h r)"
  using assms by (simp add: lookup_place_id param_values_place_id query_PlaceId_irrelevant)

theorem query_place_id_is_Language_witness:
  "param_values ''place_id''
     (query (\<lambda>_. NewService (mock_client 200 []) ''K'') ((ReverseGeocode 0 0 0)\<lparr>PlaceId := ''abc'', Language := ''th''\<rparr>))
     = [''th'']
   \<and> query (\<lambda>_. NewService (mock_client 200 []) ''K'') ((ReverseGeocode 0 0 0)\<lparr>PlaceId := ''xyz'', Language := ''th''\<rparr>)
     = query (\<lambda>_. NewService (mock_client 200 []) ''K'') ((ReverseGeocode 0 0 0)\<lparr>PlaceId := ''abc'', Language := ''th''\<rparr>)"
proof -
  let ?h = "\<lambda>_::nat. NewService (mock_client 200 []) ''K''"
  let ?r = "(ReverseGeocode 0 0 0)\<lparr>PlaceId := ''abc'', Language := ''th''\<rparr>"
  have hyp: "PlaceId ?r \<noteq> []" by simp
  note t = query_place_id_is_Language [OF hyp, of ?h]
  from t have a: "param_values ''place_id'' (query ?h ?r) = [QueryEscape (Language ?r)]"
    by (rule conjunct2 [THEN conjunct1])
  from t have "\<forall>p. p \<noteq> [] \<longrightarrow> query ?h (?r\<lparr>PlaceId := p\<rparr>) = query ?h ?r"
    by (rule conjunct2 [THEN conjunct2])
  then have b: "query ?h (?r\<lparr>PlaceId := ''xyz''\<rparr>) = query ?h ?r" by simp
  have c: "QueryEscape (Language ?r) = ''th''"
    by (simp add: QueryEscape_def escape_byte_def shouldEscape_def)
  show ?thesis using a b c by (simp add: ReverseGeocode_def)
qed

text \<open>
  C7. The query has a \<open>result_type\<close> parameter exactly when \<open>ResultType\<close> is not empty,
  and a \<open>location_type\<close> parameter exactly when \<open>LocationType\<close> is not empty; the value
  is the list joined by \<open>|\<close>, and in the query string the elements are escaped and the
  \<open>|\<close> between them is written \<open>%7C\<close>.
\<close>

theorem query_filter_lists:
  "Mapping.lookup (query_values h r) ''result_type'' =
     (if ResultType r \<noteq> [] then Some [Join (ResultType r) ''|''] else None)
   \<and> param_values ''result_type'' (query h r) =
     (if ResultType r \<noteq> [] then [Join (map QueryEscape (ResultType r)) ''%7C''] else [])
   \<and> Mapping.lookup (query_values h r) ''location_type'' =
     (if ReverseGeocodeCall.LocationType r \<noteq> []
      then Some [Join (ReverseGeocodeCall.LocationType r) ''|''] else None)
   \<and> param_values ''location_type'' (query h r) =
     (if ReverseGeocodeCall.LocationType r \<noteq> []
      then [Join (map QueryEscape (ReverseGeocodeCall.LocationType r)) ''%7C''] else [])"
  by (simp add: lookup_result_type lookup_location_type param_values_result_type
      param_values_location_type QueryEscape_Join_pipe)

theorem query_filter_lists_witness:
  "param_values ''result_type''
     (query (\<lambda>_. NewService (mock_client 200 []) ''K'')
        ((ReverseGeocode 0 0x3FF8000000000000 0x4004000000000000)
           \<lparr>ResultType := [''country'', ''postal_code'']\<rparr>))
     = [''country%7Cpostal_code'']
   \<and> param_values ''location_type''
     (query (\<lambda>_. NewService (mock_client 200 []) ''K'')
        ((ReverseGeocode 0 0x3FF8000000000000 0x4004000000000000)
           \<lparr>ResultType := [''country'', ''postal_code'']\<rparr>))
     = []"
  using query_filter_lists [of "\<lambda>_. NewService (mock_client 200 []) ''K''"
      "(ReverseGeocode 0 0x3FF8000000000000 0x4004000000000000)\<lparr>ResultType := [''country'', ''postal_code'']\<rparr>"]
  by (simp add: ReverseGeocode_def QueryEscape_def escape_byte_def shouldEscape_def)



section \<open>Executing a request\<close>

text \<open>
  C9. When validation fails (both coordinates zero, no place identifier) \<open>Do\<close> returns
  the validation error and the world is as it was: no request is sent, whatever the
  transport of the service and whatever the decoder.
\<close>

theorem Do_invalid_sends_nothing:
  assumes "\<not> f64_ne_zero (lat n)" and "\<not> f64_ne_zero (lng n)" and "PlaceId n = []"
  shows "Do json_Unmarshal h n w = (Inl errLatLngOrPlaceIdRequire, w)"
  using assms by (simp add: Do_def validate_def)

theorem Do_invalid_sends_nothing_witness:
  "Do mock_Unmarshal (\<lambda>_. NewService (mock_client 200 (json_status_body ''OK'')) ''K'')
     (ReverseGeocode 0 0 0) []
     = (Inl (errors_New ''Lat,Lng or PlaceId is required''), [])"
  using Do_invalid_sends_nothing [of "ReverseGeocode 0 0 0" mock_Unmarshal
      "\<lambda>_. NewService (mock_client 200 (json_status_body ''OK'')) ''K''" "[]"]
  by (simp add: ReverseGeocode_def f64_ne_zero_def errLatLngOrPlaceIdRequire_def)




text \<open>
  C4. When the request is valid, the response has status code 200, its body is read and the
  decoder accepts it, \<open>Do\<close> returns the decoded response if its \<open>Status\<close> is the string
  \<open>OK\<close>, and otherwise the \<open>apiError\<close> that carries the \<open>Status\<close> and the
  \<open>ErrorMessage\<close> of the decoded response; it succeeds exactly when the status is \<open>OK\<close>.
\<close>

theorem Do_decoded_status:
  assumes "validate n = None"
    and "client (h (service n)) (baseURL @ ''/json?'' @ query h n) = Inr resp"
    and "Body resp = Inr body"
    and "StatusCode resp = 200"
    and "json_Unmarshal body = Inr data"
  shows "fst (Do json_Unmarshal h n w) =
           (if Status data = ''OK'' then Inr data
            else Inl (apiError (Status data) (ErrorMessage data)))
         \<and> ((\<exists>d. fst (Do json_Unmarshal h n w) = Inr d) \<longleftrightarrow> Status data = ''OK'')"
  using assms by (simp add: Do_def)

theorem Do_decoded_status_witness:
  "fst (Do mock_Unmarshal (\<lambda>_. NewService (mock_client 200 (json_status_body ''ZERO_RESULTS'')) ''K'')
     (ReverseGeocode 0 0x3FF8000000000000 0x4004000000000000) [])
     = Inl (apiError ''ZERO_RESULTS'' [])
   \<and> fst (Do mock_Unmarshal (\<lambda>_. NewService (mock_client 200 (json_status_body ''OK'')) ''K'')
     (ReverseGeocode 0 0x3FF8000000000000 0x4004000000000000) [])
     = Inr \<lparr>Results = [], Status = ''OK'', ErrorMessage = [], HTMLAttributions = []\<rparr>"
  using Do_decoded_status [of "ReverseGeocode 0 0x3FF8000000000000 0x4004000000000000"
      "\<lambda>_. NewService (mock_client 200 (json_status_body ''ZERO_RESULTS'')) ''K''"
      "\<lparr>StatusCode = 200, Body = Inr (json_status_body ''ZERO_RESULTS'')\<rparr>"
      "json_status_body ''ZERO_RESULTS''" mock_Unmarshal
      "\<lparr>Results = [], Status = ''ZERO_RESULTS'', ErrorMessage = [], HTMLAttributions = []\<rparr>" "[]"]
    Do_decoded_status [of "ReverseGeocode 0 0x3FF8000000000000 0x4004000000000000"
      "\<lambda>_. NewService (mock_client 200 (json_status_body ''OK'')) ''K''"
      "\<lparr>StatusCode = 200, Body = Inr (json_status_body ''OK'')\<rparr>"
      "json_status_body ''OK''" mock_Unmarshal
      "\<lparr>Results = [], Status = ''OK'', ErrorMessage = [], HTMLAttributions = []\<rparr>" "[]"]
  by (simp add: validate_def ReverseGeocode_def f64_ne_zero_def NewService_def mock_client_def
      mock_Unmarshal_def json_status_body_def)

text \<open>
  C1. After \<open>SetURL\<close> has put \<open>http://localhost:8080\<close> into the \<open>url\<close> field of the
  service, \<open>Do\<close> still sends its request to the constant \<open>baseURL\<close>: the field is
  written by \<open>NewService\<close> and \<open>SetURL\<close> and read by nothing (lemma \<open>Do_SetURL\<close>).
\<close>

theorem Do_after_SetURL_requests_baseURL:
  "snd (Do mock_Unmarshal
          (SetURL 0 ''http://localhost:8080''
             (\<lambda>_. NewService (mock_client 200 (json_status_body ''OK'')) ''K''))
          (ReverseGeocode 0 0x3FF8000000000000 0x4004000000000000) [])
     = [HTTPGet ''https://maps.googleapis.com/maps/api/geocode/json?key=K&latlng=1.500000%2C2.500000'',
        BodyReadAll, BodyClose]
   \<and> url (SetURL 0 ''http://localhost:8080''
            (\<lambda>_. NewService (mock_client 200 (json_status_body ''OK'')) ''K'') 0)
       = ''http://localhost:8080''"
  by (simp add: Do_SetURL)
     (simp add: Do_def validate_def query_eq_Join sorted_params_def write_param_def baseURL_def
       ReverseGeocode_def NewService_def mock_client_def mock_Unmarshal_def json_status_body_def
       SetURL_def f64_ne_zero_def Sprintf_f_1_5 Sprintf_f_2_5 QueryEscape_examples,
      simp add: QueryEscape_def escape_byte_def shouldEscape_def)

end
